theory Spec2Isabelle
  imports Main
begin

section \<open>JavaScript values, errors and calls\<close>

text \<open>
  The values the library handles. A function inside a value is carried by the type
  parameter: the arguments of a call are data, whose functions are opaque (a number
  names each); the arguments of the library's constructors hold functions that can be
  called. Numbers are integers. An object is its list of own enumerable properties, in
  order; the members it inherits from its prototype are not part of the model.
\<close>

datatype 'f val =
    Undefined
  | Null
  | Bool bool
  | Num int
  | Str string
  | Arr "'f val list"
  | Obj "(string \<times> 'f val) list"
  | Fn 'f

type_synonym jsval = "nat val"

text \<open>
  \<^verbatim>\<open>throw new Error(message)\<close> is \<open>Error message\<close>; reading a property of
  \<^verbatim>\<open>undefined\<close> or \<^verbatim>\<open>null\<close> and calling a value that is not a function
  raise a \<^verbatim>\<open>TypeError\<close>.
\<close>

datatype error = TypeError | Error string

text \<open>
  A call returns a value or throws, and leaves a trace: the events the called functions
  emitted, in order. The library emits none; a condition or a transform supplied by the
  caller may emit any (a call counter, for one). What a function returns depends on its
  arguments only.
\<close>

type_synonym ('e, 'a) eff = "'e list \<times> (error + 'a)"

type_synonym 'e fn = "jsval list \<Rightarrow> ('e, jsval) eff"

definition ret :: "'a \<Rightarrow> ('e, 'a) eff" where
  "ret x = ([], Inr x)"

definition throw :: "error \<Rightarrow> ('e, 'a) eff" where
  "throw e = ([], Inl e)"

definition and_then :: "('e, 'a) eff \<Rightarrow> ('a \<Rightarrow> ('e, 'b) eff) \<Rightarrow> ('e, 'b) eff" where
  "and_then m f =
     (case m of
        (l, Inl e) \<Rightarrow> (l, Inl e)
      | (l, Inr x) \<Rightarrow> (case f x of (l', r) \<Rightarrow> (l @ l', r)))"

fun truthy :: "'f val \<Rightarrow> bool" where
  "truthy Undefined = False"
| "truthy Null = False"
| "truthy (Bool b) = b"
| "truthy (Num n) = (n \<noteq> 0)"
| "truthy (Str s) = (s \<noteq> [])"
| "truthy (Arr xs) = True"
| "truthy (Obj kvs) = True"
| "truthy (Fn f) = True"

text \<open>The n-th argument of a call; a missing argument reads as \<^verbatim>\<open>undefined\<close>.\<close>

definition nth_arg :: "nat \<Rightarrow> 'f val list \<Rightarrow> 'f val" where
  "nth_arg n args = (if n < length args then args ! n else Undefined)"

subsection \<open>The Ramda functions the library is built from\<close>

text \<open>
  Each is what Ramda documents it to do on the arguments of a call. Ramda also curries
  the functions it returns; the partial application of a call with fewer arguments than
  the function's length is not modelled: a call runs the function on the arguments
  supplied.
\<close>

definition R_identity :: "'e fn" where
  "R_identity args = ret (nth_arg 0 args)"

definition R_T :: "'e fn" where
  "R_T args = ret (Bool True)"

definition R_ifElse :: "'e fn \<Rightarrow> 'e fn \<Rightarrow> 'e fn \<Rightarrow> 'e fn" where
  "R_ifElse condition onTrue onFalse args =
     and_then (condition args) (\<lambda>b. if truthy b then onTrue args else onFalse args)"

text \<open>\<^verbatim>\<open>R.find\<close>: the first element the predicate accepts; later ones are not tested.\<close>

fun R_find :: "('a \<Rightarrow> ('e, jsval) eff) \<Rightarrow> 'a list \<Rightarrow> ('e, 'a option) eff" where
  "R_find p [] = ret None"
| "R_find p (x # xs) = and_then (p x) (\<lambda>b. if truthy b then ret (Some x) else R_find p xs)"

section \<open>Matchers\<close>

text \<open>
  A Matcher is a function object. \<^verbatim>\<open>privates\<close> maps it to its condition and its
  reducer; its \<^verbatim>\<open>with\<close> property is the rebinding closure, or, on the Matcher
  \<^verbatim>\<open>match.redux\<close> returns, the grouping one. The heap lists the Matchers built so
  far; a Matcher is named by its index. The condition and the reducer of a Matcher are
  never assigned again, so a function that closes over Matchers is modelled by what they
  are when it is built.
\<close>

datatype with_kind = Rebind | Grouped

record 'e matcher =
  condition :: "'e fn"
  reducer :: "'e fn"
  with_impl :: with_kind

type_synonym 'e heap = "'e matcher list"

datatype 'e callable = Plain "'e fn" | MatcherRef nat

type_synonym 'e jsany = "'e callable val"

text \<open>\<^verbatim>\<open>const reduce = R.ifElse(condition, reducer, R.identity)\<close>: what calling a Matcher does.\<close>

definition reduce :: "'e matcher \<Rightarrow> 'e fn" where
  "reduce m = R_ifElse (condition m) (reducer m) R_identity"

text \<open>Calling a value: a plain function, a Matcher, or a \<^verbatim>\<open>TypeError\<close>.\<close>

definition call_value :: "'e heap \<Rightarrow> 'e jsany \<Rightarrow> 'e fn" where
  "call_value h v =
     (case v of
        Fn (Plain f) \<Rightarrow> f
      | Fn (MatcherRef r) \<Rightarrow> (if r < length h then reduce (h ! r) else (\<lambda>args. throw TypeError))
      | _ \<Rightarrow> (\<lambda>args. throw TypeError))"

text \<open>
  \<^verbatim>\<open>Matcher(condition, reducer = R.identity)\<close>: a new function object, entered in
  \<^verbatim>\<open>privates\<close>. The reducer is \<open>None\<close> when the argument is missing or
  \<^verbatim>\<open>undefined\<close>.
\<close>

definition Matcher :: "'e fn \<Rightarrow> 'e fn option \<Rightarrow> 'e heap \<Rightarrow> nat \<times> 'e heap" where
  "Matcher cond red h =
     (length h,
      h @ [\<lparr>condition = cond,
            reducer = (case red of None \<Rightarrow> R_identity | Some r \<Rightarrow> r),
            with_impl = Rebind\<rparr>])"

definition reducer_arg :: "'e heap \<Rightarrow> 'e jsany \<Rightarrow> 'e fn option" where
  "reducer_arg h v = (case v of Undefined \<Rightarrow> None | _ \<Rightarrow> Some (call_value h v))"

subsection \<open>util: preconditions\<close>

fun isFunction :: "'f val \<Rightarrow> bool" where
  "isFunction (Fn f) = True"
| "isFunction _ = False"

text \<open>\<^verbatim>\<open>R.is(Matcher)\<close>\<close>

fun is_Matcher :: "'e jsany \<Rightarrow> bool" where
  "is_Matcher (Fn (MatcherRef r)) = True"
| "is_Matcher _ = False"

text \<open>\<^verbatim>\<open>R.is(Object)\<close>: objects, arrays and functions, no primitive.\<close>

fun is_Object :: "'f val \<Rightarrow> bool" where
  "is_Object (Obj kvs) = True"
| "is_Object (Arr xs) = True"
| "is_Object (Fn f) = True"
| "is_Object _ = False"

fun isPlainObject :: "'f val \<Rightarrow> bool" where
  "isPlainObject (Obj kvs) = True"
| "isPlainObject _ = False"

definition must :: "('a list \<Rightarrow> bool) \<Rightarrow> string \<Rightarrow> ('a list \<Rightarrow> bool) \<times> string" where
  "must predicate message = (predicate, message)"

text \<open>
  \<^verbatim>\<open>preconditions(...conditions)(f)\<close>: the first predicate that rejects the arguments
  throws its message; otherwise \<open>f\<close> runs.
\<close>

definition preconditions ::
  "(('a list \<Rightarrow> bool) \<times> string) list \<Rightarrow> ('a list \<Rightarrow> 's \<Rightarrow> error + 'b) \<Rightarrow> 'a list \<Rightarrow> 's \<Rightarrow> error + 'b" where
  "preconditions conditions f args s =
     (case find (\<lambda>c. \<not> fst c args) conditions of
        Some failedCondition \<Rightarrow> Inl (Error (snd failedCondition))
      | None \<Rightarrow> f args s)"

subsection \<open>match, match.first, match.always, with\<close>

definition match :: "'e jsany \<Rightarrow> 'e heap \<Rightarrow> error + nat \<times> 'e heap" where
  "match c =
     preconditions [must (\<lambda>args. isFunction (nth_arg 0 args)) ''argument must be a function'']
       (\<lambda>args h. Inr (Matcher (call_value h (nth_arg 0 args)) None h)) [c]"

text \<open>
  The reducer of \<^verbatim>\<open>match.first\<close>, \<^verbatim>\<open>(state, ...rest) => ...\<close>: it finds the first
  Matcher whose condition accepts \<^verbatim>\<open>(state, ...rest)\<close> and calls that Matcher with
  the same arguments.
\<close>

definition first_reducer :: "'e heap \<Rightarrow> nat list \<Rightarrow> 'e fn" where
  "first_reducer h reducers args =
     (let state = nth_arg 0 args; rest = tl args in
      and_then (R_find (\<lambda>r. condition (h ! r) (state # rest)) reducers)
        (\<lambda>found. case found of
                    Some r \<Rightarrow> reduce (h ! r) (state # rest)
                  | None \<Rightarrow> ret state))"

text \<open>
  \<^verbatim>\<open>match.first\<close> takes Matchers. \<^verbatim>\<open>R.length\<close> of its first argument is that
  Matcher's arity, at least one, and is not a number when there is no argument.
\<close>

definition first :: "nat list \<Rightarrow> 'e heap \<Rightarrow> error + nat \<times> 'e heap" where
  "first reducers h =
     preconditions
       [must (\<lambda>args. args \<noteq> []) ''must pass at least one argument'',
        must (list_all (\<lambda>r. r < length h)) ''arguments must be Matchers'']
       (\<lambda>args h. Inr (Matcher R_T (Some (first_reducer h args)) h)) reducers h"

text \<open>
  \<^verbatim>\<open>isFunctionOrMatcher\<close> accepts every function, a Matcher being one.
\<close>

definition always :: "'e jsany \<Rightarrow> 'e heap \<Rightarrow> error + nat \<times> 'e heap" where
  "always r =
     preconditions [must (\<lambda>args. isFunction (nth_arg 0 args)) ''must be a function or Matcher'']
       (\<lambda>args h. Inr (Matcher R_T (Some (call_value h (nth_arg 0 args))) h)) [r]"

definition convertToMatcher :: "'e jsany \<Rightarrow> 'e heap \<Rightarrow> error + nat \<times> 'e heap" where
  "convertToMatcher r =
     preconditions [must (\<lambda>args. isFunction (nth_arg 0 args)) ''must be a function or Matcher'']
       (\<lambda>args h. case nth_arg 0 args of
                    Fn (MatcherRef m) \<Rightarrow> Inr (m, h)
                  | v \<Rightarrow> always v h) [r]"

text \<open>\<^verbatim>\<open>R.map(convertToMatcher)\<close>, left to right; the first failure stops it.\<close>

fun convert_each :: "'e jsany list \<Rightarrow> 'e heap \<Rightarrow> error + nat list \<times> 'e heap" where
  "convert_each [] h = Inr ([], h)"
| "convert_each (r # rs) h =
     (case convertToMatcher r h of
        Inl e \<Rightarrow> Inl e
      | Inr (m, h') \<Rightarrow>
          (case convert_each rs h' of
             Inl e \<Rightarrow> Inl e
           | Inr (ms, h'') \<Rightarrow> Inr (m # ms, h'')))"

definition getMatcherFromReducers :: "'e jsany list \<Rightarrow> 'e heap \<Rightarrow> error + nat \<times> 'e heap" where
  "getMatcherFromReducers =
     preconditions [must (list_all isFunction) ''arguments must be functions or Matchers'']
       (\<lambda>args h. case convert_each args h of
                    Inl e \<Rightarrow> Inl e
                  | Inr (ms, h') \<Rightarrow> first ms h')"

text \<open>
  Calling the \<^verbatim>\<open>with\<close> property of the Matcher \<open>m\<close>.
  \<^verbatim>\<open>childReducer => Matcher(condition, childReducer)\<close> rebinds the reducer;
  \<^verbatim>\<open>R.pipe(getMatcherFromReducers, matcher.with)\<close>, the property of a Matcher of
  \<^verbatim>\<open>match.redux\<close>, first combines its arguments.
\<close>

definition matcher_with :: "nat \<Rightarrow> 'e jsany list \<Rightarrow> 'e heap \<Rightarrow> error + nat \<times> 'e heap" where
  "matcher_with m args h =
     (if m < length h then
        (case with_impl (h ! m) of
           Rebind \<Rightarrow> Inr (Matcher (condition (h ! m)) (reducer_arg h (nth_arg 0 args)) h)
         | Grouped \<Rightarrow>
             (case getMatcherFromReducers args h of
                Inl e \<Rightarrow> Inl e
              | Inr (f, h') \<Rightarrow>
                  Inr (Matcher (condition (h ! m)) (reducer_arg h' (Fn (MatcherRef f))) h')))
      else Inl TypeError)"

text \<open>Calling the Matcher \<open>m\<close>.\<close>

definition call_matcher :: "'e heap \<Rightarrow> nat \<Rightarrow> 'e fn" where
  "call_matcher h m = call_value h (Fn (MatcherRef m))"

subsection \<open>Reading properties\<close>

definition digit_char :: "nat \<Rightarrow> char" where
  "digit_char d = ''0123456789'' ! d"

fun show_nat :: "nat \<Rightarrow> string" where
  "show_nat n = (if n < 10 then [digit_char n] else show_nat (n div 10) @ [digit_char (n mod 10)])"

declare show_nat.simps [simp del]


text \<open>The index a property key denotes, below \<open>n\<close>.\<close>

definition index_of_key :: "string \<Rightarrow> nat \<Rightarrow> nat option" where
  "index_of_key k n = find (\<lambda>i. show_nat i = k) [0..<n]"

text \<open>
  \<^verbatim>\<open>object[key]\<close>. A property that is not there reads as \<^verbatim>\<open>undefined\<close>; reading
  from \<^verbatim>\<open>undefined\<close> or \<^verbatim>\<open>null\<close> throws. Numbers, booleans and functions have
  no property of their own here.
\<close>

fun get_prop :: "'f val \<Rightarrow> string \<Rightarrow> error + 'f val" where
  "get_prop Undefined k = Inl TypeError"
| "get_prop Null k = Inl TypeError"
| "get_prop (Obj kvs) k = Inr (case map_of kvs k of Some v \<Rightarrow> v | None \<Rightarrow> Undefined)"
| "get_prop (Arr xs) k =
     Inr (if k = ''length'' then Num (int (length xs))
          else case index_of_key k (length xs) of Some i \<Rightarrow> xs ! i | None \<Rightarrow> Undefined)"
| "get_prop (Str s) k =
     Inr (if k = ''length'' then Num (int (length s))
          else case index_of_key k (length s) of Some i \<Rightarrow> Str [s ! i] | None \<Rightarrow> Undefined)"
| "get_prop (Bool b) k = Inr Undefined"
| "get_prop (Num n) k = Inr Undefined"
| "get_prop (Fn f) k = Inr Undefined"



text \<open>
  The own enumerable properties, as lodash walks them: those of an object, the elements
  of an array under their indices, none for \<^verbatim>\<open>undefined\<close>, \<^verbatim>\<open>null\<close>, a
  primitive or a function. The characters of a string are not walked: a string stands
  with the other primitives.
\<close>

fun entries :: "'f val \<Rightarrow> (string \<times> 'f val) list" where
  "entries (Obj kvs) = kvs"
| "entries (Arr xs) = zip (map show_nat [0..<length xs]) xs"
| "entries _ = []"

subsection \<open>match.withDefault\<close>

text \<open>
  Modelled from the spec: \<^verbatim>\<open>util.isUndefined\<close> is not among the sources; the default
  is returned "when the first call argument is undefined". lodash's
  \<^verbatim>\<open>_.isUndefined\<close> is the same test.
\<close>

definition isUndefined :: "'f val \<Rightarrow> bool" where
  "isUndefined v = (case v of Undefined \<Rightarrow> True | _ \<Rightarrow> False)"


subsection \<open>Conditions on the action\<close>

text \<open>
  \<^verbatim>\<open>R.where(spec, testObj)\<close>: every property of the spec is a predicate, called with
  the property of the same name of the tested object; the first that rejects ends it.
\<close>

fun R_where :: "'e heap \<Rightarrow> (string \<times> 'e jsany) list \<Rightarrow> jsval \<Rightarrow> ('e, jsval) eff" where
  "R_where h [] testObj = ret (Bool True)"
| "R_where h ((prop, pred) # spec) testObj =
     (case get_prop testObj prop of
        Inl e \<Rightarrow> throw e
      | Inr v \<Rightarrow>
          and_then (call_value h pred [v])
            (\<lambda>b. if truthy b then R_where h spec testObj else ret (Bool False)))"

text \<open>
  \<^verbatim>\<open>R.equals\<close>: structural equality; two objects are equal when they have as many
  keys and every key of the first is a key of the second with an equal value. \<open>same\<close>
  tells when two functions are one.
\<close>

lemma size_elem_Arr: "x \<in> set xs \<Longrightarrow> size x < size (Arr xs)"
  by (induction xs) auto

lemma size_value_Obj: "(k, v) \<in> set kvs \<Longrightarrow> size v < size (Obj kvs)"
  by (induction kvs) auto

function (sequential) R_equals :: "('f \<Rightarrow> 'g \<Rightarrow> bool) \<Rightarrow> 'f val \<Rightarrow> 'g val \<Rightarrow> bool" where
  "R_equals same Undefined Undefined = True"
| "R_equals same Null Null = True"
| "R_equals same (Bool a) (Bool b) = (a = b)"
| "R_equals same (Num a) (Num b) = (a = b)"
| "R_equals same (Str a) (Str b) = (a = b)"
| "R_equals same (Fn f) (Fn g) = same f g"
| "R_equals same (Arr xs) (Arr ys) =
     (length xs = length ys \<and>
      list_all (\<lambda>i. R_equals same (xs ! i) (ys ! i)) [0..<length xs])"
| "R_equals same (Obj kvs) (Obj kvs') =
     (length kvs = length kvs' \<and>
      list_all (\<lambda>kv. case map_of kvs' (fst kv) of
                       Some w \<Rightarrow> R_equals same (snd kv) w
                     | None \<Rightarrow> False) kvs)"
| "R_equals same _ _ = False"
  by pat_completeness auto
termination
proof (relation "measure (\<lambda>(same, a, b). size a)")
  show "wf (measure (\<lambda>(same :: 'f \<Rightarrow> 'g \<Rightarrow> bool, a :: 'f val, b :: 'g val). size a))"
    by simp
next
  fix same :: "'f \<Rightarrow> 'g \<Rightarrow> bool" and xs :: "'f val list" and ys :: "'g val list" and i
  assume "i \<in> set [0..<length xs]"
  then have "xs ! i \<in> set xs" by simp
  then have "size (xs ! i) < size (Arr xs)" by (rule size_elem_Arr)
  then show "((same, xs ! i, ys ! i), (same, Arr xs, Arr ys)) \<in> measure (\<lambda>(same, a, b). size a)"
    by simp
next
  fix same :: "'f \<Rightarrow> 'g \<Rightarrow> bool" and kvs :: "(string \<times> 'f val) list"
    and kvs' :: "(string \<times> 'g val) list" and kv w
  assume "kv \<in> set kvs"
  then have "(fst kv, snd kv) \<in> set kvs" by simp
  then have "size (snd kv) < size (Obj kvs)" by (rule size_value_Obj)
  then show "((same, snd kv, w), (same, Obj kvs, Obj kvs')) \<in> measure (\<lambda>(same, a, b). size a)"
    by simp
qed

text \<open>
  \<^verbatim>\<open>R.whereEq(spec, testObj)\<close>: \<^verbatim>\<open>R.where\<close> with \<^verbatim>\<open>R.equals(value)\<close> for each
  property of the spec. A function of the spec is never a value of the tested object.
\<close>

fun R_whereEq :: "(string \<times> 'e jsany) list \<Rightarrow> jsval \<Rightarrow> ('e, jsval) eff" where
  "R_whereEq [] testObj = ret (Bool True)"
| "R_whereEq ((prop, v) # spec) testObj =
     (case get_prop testObj prop of
        Inl e \<Rightarrow> throw e
      | Inr w \<Rightarrow> if R_equals (\<lambda>f g. False) v w then R_whereEq spec testObj else ret (Bool False))"

text \<open>\<^verbatim>\<open>match.shape = R.when(util.isPlainObject, R.where)\<close>, as the predicate it yields.\<close>

definition shape :: "'e heap \<Rightarrow> 'e jsany \<Rightarrow> 'e fn" where
  "shape h c =
     (if isPlainObject c then (\<lambda>args. R_where h (entries c) (nth_arg 0 args))
      else call_value h c)"

text \<open>\<^verbatim>\<open>match.object = R.when(util.isPlainObject, R.whereEq)\<close>\<close>

definition object :: "'e heap \<Rightarrow> 'e jsany \<Rightarrow> 'e fn" where
  "object h c =
     (if isPlainObject c then (\<lambda>args. R_whereEq (entries c) (nth_arg 0 args))
      else call_value h c)"

definition isMatcherCondition :: "('e jsany list \<Rightarrow> bool) \<times> string" where
  "isMatcherCondition =
     must (\<lambda>args. isFunction (nth_arg 0 args) \<or> is_Object (nth_arg 0 args))
       ''condition must be an object or function''"

text \<open>
  \<^verbatim>\<open>condition => R.pipe(R.nthArg(1), getConditionPredicate(condition))\<close>: the
  predicate is called with the second argument of the call alone.
\<close>

definition getActionCondition ::
  "('e heap \<Rightarrow> 'e jsany \<Rightarrow> 'e fn) \<Rightarrow> 'e jsany \<Rightarrow> 'e heap \<Rightarrow> error + 'e fn" where
  "getActionCondition getConditionPredicate c =
     preconditions [isMatcherCondition]
       (\<lambda>args h. Inr (\<lambda>callArgs. getConditionPredicate h (nth_arg 0 args) [nth_arg 1 callArgs])) [c]"

definition actionCondition :: "'e jsany \<Rightarrow> 'e heap \<Rightarrow> error + 'e fn" where
  "actionCondition = getActionCondition shape"



subsection \<open>match.redux\<close>

text \<open>A new Matcher with the condition and the reducer \<^verbatim>\<open>privates\<close> holds for the given one.\<close>

definition ofMatcher :: "'e jsany \<Rightarrow> 'e heap \<Rightarrow> error + nat \<times> 'e heap" where
  "ofMatcher m =
     preconditions [must (\<lambda>args. is_Matcher (nth_arg 0 args)) ''argument must be a Matcher'']
       (\<lambda>args h. case nth_arg 0 args of
                    Fn (MatcherRef r) \<Rightarrow>
                      if r < length h
                      then Inr (Matcher (condition (h ! r)) (Some (reducer (h ! r))) h)
                      else Inl TypeError
                  | _ \<Rightarrow> Inl TypeError) [m]"

text \<open>
  \<^verbatim>\<open>match.redux\<close> builds a Matcher on the action condition, copies it and defines the
  \<^verbatim>\<open>with\<close> property of the copy: \<^verbatim>\<open>R.pipe(getMatcherFromReducers, matcher.with)\<close>,
  which rebinds the condition of the first Matcher, the one the copy has too.
\<close>

definition redux :: "'e jsany \<Rightarrow> 'e heap \<Rightarrow> error + nat \<times> 'e heap" where
  "redux c =
     preconditions [isMatcherCondition]
       (\<lambda>args h.
          case actionCondition (nth_arg 0 args) h of
            Inl e \<Rightarrow> Inl e
          | Inr ac \<Rightarrow>
              (case match (Fn (Plain ac)) h of
                 Inl e \<Rightarrow> Inl e
               | Inr (matcher, h1) \<Rightarrow>
                   (case ofMatcher (Fn (MatcherRef matcher)) h1 of
                      Inl e \<Rightarrow> Inl e
                    | Inr (copy, h2) \<Rightarrow>
                        Inr (copy, h2[copy := (h2 ! copy)\<lparr>with_impl := Grouped\<rparr>])))) [c]"

subsection \<open>The older copy of the module\<close>


definition first_reducer_legacy :: "'e heap \<Rightarrow> nat list \<Rightarrow> 'e fn" where
  "first_reducer_legacy h reducers args =
     (let state = nth_arg 0 args; action = nth_arg 1 args in
      and_then (R_find (\<lambda>r. condition (h ! r) [state, action]) reducers)
        (\<lambda>found. case found of
                    Some r \<Rightarrow> reduce (h ! r) [state, action]
                  | None \<Rightarrow> ret state))"

definition first_legacy :: "nat list \<Rightarrow> 'e heap \<Rightarrow> error + nat \<times> 'e heap" where
  "first_legacy reducers h =
     preconditions
       [must (\<lambda>args. args \<noteq> []) ''must pass at least one Matcher'',
        must (list_all (\<lambda>r. r < length h)) ''arguments must be Matchers'']
       (\<lambda>args h. Inr (Matcher R_T (Some (first_reducer_legacy h args)) h)) reducers h"

section \<open>The tree dispatcher\<close>

subsection \<open>findReducer\<close>














subsection \<open>combineReducers\<close>

text \<open>\<^verbatim>\<open>_.mapValues\<close>: the iteratee is called with each value and its key, in order.\<close>

fun mapValues ::
  "(string \<times> 'a) list \<Rightarrow> ('a \<Rightarrow> string \<Rightarrow> ('e, 'b) eff) \<Rightarrow> ('e, (string \<times> 'b) list) eff" where
  "mapValues [] iteratee = ret []"
| "mapValues ((key, v) # rest) iteratee =
     and_then (iteratee v key)
       (\<lambda>r. and_then (mapValues rest iteratee) (\<lambda>rs. ret ((key, r) # rs)))"

definition call_fn :: "'e fn val \<Rightarrow> 'e fn" where
  "call_fn v = (case v of Fn f \<Rightarrow> f | _ \<Rightarrow> (\<lambda>args. throw TypeError))"

text \<open>
  \<^verbatim>\<open>state && state[key]\<close>: a falsy state itself, else its property. A truthy state is
  neither \<^verbatim>\<open>undefined\<close> nor \<^verbatim>\<open>null\<close>, so the read does not throw.
\<close>

definition state_slice :: "jsval \<Rightarrow> string \<Rightarrow> jsval" where
  "state_slice state key =
     (if truthy state
      then (case get_prop state key of Inr v \<Rightarrow> v | Inl e \<Rightarrow> Undefined)
      else state)"

definition combineReducers :: "'e fn val \<Rightarrow> error + 'e fn" where
  "combineReducers reducers =
     (if \<not> truthy reducers then Inl (Error ''You must supply reducers to combineReducers()'')
      else Inr (\<lambda>args.
        let state = nth_arg 0 args; action = nth_arg 1 args in
        and_then
          (mapValues (entries reducers)
             (\<lambda>sReducer key. call_fn sReducer [state_slice state key, action, state]))
          (\<lambda>kvs. ret (Obj kvs))))"

section \<open>Notions the statements use\<close>

subsection \<open>Calls that return\<close>



text \<open>A call returned a value, and the value it returned.\<close>

definition returned :: "('e, 'a) eff \<Rightarrow> bool" where
  "returned r = (case snd r of Inr v \<Rightarrow> True | Inl e \<Rightarrow> False)"

definition value_of :: "('e, jsval) eff \<Rightarrow> jsval" where
  "value_of r = (case snd r of Inr v \<Rightarrow> v | Inl e \<Rightarrow> Undefined)"

subsection \<open>Transforms given to the grouped with\<close>

text \<open>
  A transform is a plain function or a Matcher of the heap. It is promoted to the
  Matcher \<open>r\<close> when it is that Matcher already, or when it is a plain function and
  \<open>r\<close> is a Matcher with the condition \<^verbatim>\<open>R.T\<close> and the function for its
  reducer, as \<^verbatim>\<open>match.always\<close> builds it.
\<close>

definition valid_transform :: "'e heap \<Rightarrow> 'e jsany \<Rightarrow> bool" where
  "valid_transform h v =
     (case v of Fn (Plain f) \<Rightarrow> True | Fn (MatcherRef r) \<Rightarrow> r < length h | _ \<Rightarrow> False)"

definition promoted :: "'e heap \<Rightarrow> 'e jsany \<Rightarrow> nat \<Rightarrow> bool" where
  "promoted h v r =
     (case v of
        Fn (MatcherRef m) \<Rightarrow> r = m
      | Fn (Plain f) \<Rightarrow> r < length h \<and> condition (h ! r) = R_T \<and> reducer (h ! r) = f
      | _ \<Rightarrow> False)"

subsection \<open>Reducer trees\<close>

text \<open>
  The shape the documentation of \<^verbatim>\<open>findReducer\<close> gives a reducer tree: a function,
  or an object that maps action properties to objects that map action values to
  reducer trees. An object has each key once.
\<close>

datatype 'f reducer_tree =
    Leaf 'f
  | Branch "(string \<times> (string \<times> 'f reducer_tree) list) list"

fun tree_value :: "'f reducer_tree \<Rightarrow> 'f val" where
  "tree_value (Leaf f) = Fn f"
| "tree_value (Branch props) =
     Obj (map (\<lambda>pv. (fst pv, Obj (map (\<lambda>vt. (fst vt, tree_value (snd vt))) (snd pv)))) props)"








section \<open>Properties\<close>

subsection \<open>Sequencing\<close>

lemma and_then_ret [simp]: "and_then (ret x) f = f x"
  by (simp add: and_then_def ret_def split: prod.splits)

lemma and_then_throw [simp]: "and_then (throw e) f = throw e"
  by (simp add: and_then_def throw_def)

lemma and_then_value [simp]: "and_then (l, Inr x) f = (l @ fst (f x), snd (f x))"
  by (simp add: and_then_def split: prod.splits)

lemma and_then_error [simp]: "and_then (l, Inl e) f = (l, Inl e)"
  by (simp add: and_then_def)


subsection \<open>Matcher construction and call\<close>






text \<open>
  C9. For every Matcher \<open>m\<close> of the heap whose \<^verbatim>\<open>with\<close> is the one the Matcher
  constructor gave it, and every transform \<open>t\<close>: \<^verbatim>\<open>m.with(t)\<close> returns a Matcher
  that was not in the heap, with the condition of \<open>m\<close> and the reducer \<open>t\<close>; every
  Matcher that was in the heap, \<open>m\<close> among them, is as it was, and calling \<open>m\<close>
  does what it did. A Matcher \<^verbatim>\<open>match(c)\<close> built is such a Matcher, with the identity
  for its reducer.
\<close>

theorem with_rebinds:
  fixes c t :: "'e fn"
  shows "(m < length h \<and> with_impl (h ! m) = Rebind \<longrightarrow>
          (\<exists>M h'. matcher_with m [Fn (Plain t)] h = Inr (M, h') \<and>
             M = length h \<and> take (length h) h' = h \<and>
             condition (h' ! M) = condition (h ! m) \<and> reducer (h' ! M) = t \<and>
             call_matcher h' m = call_matcher h m)) \<and>
         (\<exists>m0 h1. match (Fn (Plain c)) h = Inr (m0, h1) \<and>
             m0 < length h1 \<and> with_impl (h1 ! m0) = Rebind \<and>
             condition (h1 ! m0) = c \<and> reducer (h1 ! m0) = R_identity)"
  by (simp add: matcher_with_def Matcher_def reducer_arg_def nth_arg_def call_value_def
        call_matcher_def nth_append reduce_def match_def preconditions_def must_def)

theorem with_rebinds_witness:
  "\<exists>M h'.
     matcher_with 0 [Fn (Plain (\<lambda>args. ([''t''], Inr (Num 7))))]
       [\<lparr>condition = R_T, reducer = R_identity, with_impl = Rebind\<rparr>] = Inr (M, h') \<and>
     M = 1 \<and>
     call_matcher h' M [Num 1] = ([''t''], Inr (Num 7)) \<and>
     call_matcher h' 0 [Num 1] = ([], Inr (Num 1))"
proof -
  let ?t = "\<lambda>args :: jsval list. ([''t''], Inr (Num 7 :: jsval) :: error + jsval)"
  let ?h = "[\<lparr>condition = R_T, reducer = R_identity, with_impl = Rebind\<rparr>] :: string heap"
  have "0 < length ?h \<and> with_impl (?h ! 0) = Rebind" by simp
  with with_rebinds [of 0 ?h ?t R_T] obtain M h' where
    w: "matcher_with 0 [Fn (Plain ?t)] ?h = Inr (M, h')" "M = length ?h" "take (length ?h) h' = ?h"
       "condition (h' ! M) = condition (?h ! 0)" "reducer (h' ! M) = ?t"
       "call_matcher h' 0 = call_matcher ?h 0"
    by blast
  from w(1) have h': "h' = ?h @ [\<lparr>condition = R_T, reducer = ?t, with_impl = Rebind\<rparr>]"
    by (simp add: matcher_with_def Matcher_def reducer_arg_def nth_arg_def call_value_def)
  have "call_matcher h' M [Num 1] = ([''t''], Inr (Num 7))"
    using w(2) by (simp add: h' call_matcher_def call_value_def reduce_def R_ifElse_def R_T_def)
  moreover have "call_matcher ?h 0 [Num 1] = ([], Inr (Num 1))"
    by (simp add: call_matcher_def call_value_def reduce_def R_ifElse_def R_T_def
          R_identity_def nth_arg_def ret_def)
  then have "call_matcher h' 0 [Num 1] = ([], Inr (Num 1))"
    by (simp only: w(6))
  ultimately show ?thesis using w(1,2) by simp
qed

subsection \<open>match.withDefault\<close>



subsection \<open>match.first\<close>



lemma first_builds:
  assumes "rs \<noteq> []" and "list_all (\<lambda>r. r < length h) rs"
  shows "first rs h = Inr (length h, h @ [\<lparr>condition = R_T, reducer = first_reducer h rs, with_impl = Rebind\<rparr>])"
  using assms by (simp add: first_def preconditions_def must_def Matcher_def)

lemma call_first:
  "call_matcher (h @ [\<lparr>condition = R_T, reducer = first_reducer h rs, with_impl = Rebind\<rparr>]) (length h) args
     = first_reducer h rs args"
  by (simp add: call_matcher_def call_value_def reduce_def R_ifElse_def R_T_def)

text \<open>
  The \<^verbatim>\<open>match.first\<close> of the older copy does on a call what the current one does
  on the first two arguments of the call.
\<close>

lemma first_reducer_legacy_eq:
  "first_reducer_legacy h rs args = first_reducer h rs [nth_arg 0 args, nth_arg 1 args]"
  by (simp add: first_reducer_legacy_def first_reducer_def nth_arg_def Let_def)




subsection \<open>match.redux\<close>

lemma redux_builds:
  assumes "isFunction c \<or> is_Object c"
  shows "redux c h =
     Inr (Suc (length h),
          h @ [\<lparr>condition = (\<lambda>callArgs. shape h c [nth_arg 1 callArgs]), reducer = R_identity, with_impl = Rebind\<rparr>,
               \<lparr>condition = (\<lambda>callArgs. shape h c [nth_arg 1 callArgs]), reducer = R_identity, with_impl = Grouped\<rparr>])"
  using assms
  by (simp add: redux_def preconditions_def isMatcherCondition_def must_def nth_arg_def
        actionCondition_def getActionCondition_def match_def Matcher_def ofMatcher_def
        call_value_def nth_append list_update_append)

lemma convertToMatcher_valid:
  assumes "valid_transform h v"
  shows "\<exists>r h'. convertToMatcher v h = Inr (r, h') \<and> take (length h) h' = h \<and>
           length h \<le> length h' \<and> r < length h' \<and> promoted h' v r"
proof (cases v)
  case (Fn f)
  show ?thesis
  proof (cases f)
    case (Plain g)
    with Fn show ?thesis
      by (simp add: convertToMatcher_def preconditions_def must_def nth_arg_def always_def
            Matcher_def call_value_def promoted_def)
  next
    case (MatcherRef m)
    with Fn assms show ?thesis
      by (simp add: convertToMatcher_def preconditions_def must_def nth_arg_def
            valid_transform_def promoted_def)
  qed
qed (use assms in \<open>simp_all add: valid_transform_def\<close>)

lemma valid_transform_grow:
  "valid_transform h v \<Longrightarrow> length h \<le> length h' \<Longrightarrow> valid_transform h' v"
  by (auto simp: valid_transform_def split: val.splits callable.splits)

lemma promoted_grow:
  assumes "promoted h v r" and "take (length h) h' = h" and "length h \<le> length h'"
  shows "promoted h' v r"
proof -
  have "r < length h \<Longrightarrow> h' ! r = h ! r"
    using assms(2) by (metis nth_take)
  with assms show ?thesis
    by (auto simp: promoted_def split: val.splits callable.splits)
qed

lemma take_take_grow:
  assumes "take (length h) h1 = h" and "take (length h1) h2 = h1" and "length h \<le> length h1"
  shows "take (length h) h2 = h"
proof -
  have "take (length h) h2 = take (length h) (take (length h1) h2)"
    using assms(3) by (simp add: min_def)
  with assms show ?thesis by simp
qed

lemma convert_each_valid:
  "list_all (valid_transform h) ts \<Longrightarrow>
   \<exists>Ts h'. convert_each ts h = Inr (Ts, h') \<and> length Ts = length ts \<and>
     take (length h) h' = h \<and> length h \<le> length h' \<and>
     list_all (\<lambda>r. r < length h') Ts \<and>
     (\<forall>i<length ts. promoted h' (ts ! i) (Ts ! i))"
proof (induction ts arbitrary: h)
  case Nil
  then show ?case by simp
next
  case (Cons t ts)
  then obtain r h1 where r: "convertToMatcher t h = Inr (r, h1)" "take (length h) h1 = h"
      "length h \<le> length h1" "r < length h1" "promoted h1 t r"
    using convertToMatcher_valid [of h t] by auto
  from Cons.prems r(3) have "list_all (valid_transform h1) ts"
    by (auto simp: list_all_iff intro: valid_transform_grow)
  from Cons.IH [OF this] obtain Ts h2 where Ts: "convert_each ts h1 = Inr (Ts, h2)"
      "length Ts = length ts" "take (length h1) h2 = h1" "length h1 \<le> length h2"
      "list_all (\<lambda>r. r < length h2) Ts" "\<forall>i<length ts. promoted h2 (ts ! i) (Ts ! i)"
    by blast
  have "promoted h2 t r" using r(5) Ts(3,4) by (rule promoted_grow)
  then have "\<forall>i<length (t # ts). promoted h2 ((t # ts) ! i) ((r # Ts) ! i)"
    using Ts(6) by (auto simp: nth_Cons split: nat.splits)
  moreover have "take (length h) h2 = h" using r(2) Ts(3) r(3) by (rule take_take_grow)
  ultimately show ?case using r Ts by auto
qed


lemma take_eq_length_le:
  assumes "take (length a) b = a"
  shows "length a \<le> length b"
proof -
  have "length (take (length a) b) = length a" using assms by simp
  then show ?thesis by simp
qed

lemma valid_transform_isFunction: "valid_transform h v \<Longrightarrow> isFunction v"
  by (cases v) (simp_all add: valid_transform_def)

lemma grouped_with_call:
  fixes g :: "'e heap"
  assumes R: "R < length g" "g ! R = \<lparr>condition = ac, reducer = r0, with_impl = Grouped\<rparr>"
    and valid: "list_all (valid_transform g) (t # ts)"
  shows "\<exists>M g2 Ts gT F gF.
           matcher_with R (t # ts) g = Inr (M, g2) \<and>
           take (length g) gT = g \<and>
           length Ts = length (t # ts) \<and>
           (\<forall>i<length (t # ts). promoted gT ((t # ts) ! i) (Ts ! i)) \<and>
           first Ts gT = Inr (F, gF) \<and>
           (\<forall>args. call_matcher g2 M args =
              and_then (ac args) (\<lambda>b. if truthy b then call_matcher gF F args
                                       else ret (nth_arg 0 args)))"
proof -
  from valid obtain Ts gT where Ts: "convert_each (t # ts) g = Inr (Ts, gT)"
      "length Ts = length (t # ts)" "list_all (\<lambda>r. r < length gT) Ts"
      "\<forall>i<length (t # ts). promoted gT ((t # ts) ! i) (Ts ! i)"
      "take (length g) gT = g"
    using convert_each_valid [of g "t # ts"] by blast
  define gF where "gF = gT @ [\<lparr>condition = R_T, reducer = first_reducer gT Ts, with_impl = Rebind\<rparr>]"
  define g2 where "g2 = gF @ [\<lparr>condition = ac, reducer = reduce (gF ! length gT), with_impl = Rebind\<rparr>]"
  from Ts(2) have "Ts \<noteq> []" by auto
  then have F: "first Ts gT = Inr (length gT, gF)"
    unfolding gF_def using Ts(3) by (rule first_builds)
  have fns: "list_all isFunction (t # ts)"
    using valid by (auto simp: list_all_iff intro: valid_transform_isFunction)
  have gm: "getMatcherFromReducers (t # ts) g = Inr (length gT, gF)"
    using fns Ts(1) F by (simp add: getMatcherFromReducers_def preconditions_def must_def)
  have lenF: "length gT < length gF" by (simp add: gF_def)
  have mw: "matcher_with R (t # ts) g = Inr (length gF, g2)"
    using R gm lenF
    by (simp add: matcher_with_def Matcher_def reducer_arg_def call_value_def g2_def)
  have call: "\<forall>args. call_matcher g2 (length gF) args =
      and_then (ac args) (\<lambda>b. if truthy b then call_matcher gF (length gT) args
                               else ret (nth_arg 0 args))"
    using lenF
    by (simp add: call_matcher_def call_value_def g2_def reduce_def R_ifElse_def R_identity_def
          cong: if_cong)
  from mw Ts(5) Ts(2) Ts(4) F call show ?thesis by blast
qed

text \<open>
  C5. For every condition \<open>c\<close>, a function or an object, \<^verbatim>\<open>match.redux(c)\<close> returns
  a Matcher \<open>R\<close>. In any later heap, for transforms \<open>t, ts\<close>, each a plain function
  or a Matcher, \<^verbatim>\<open>R.with(t, ...ts)\<close> returns a Matcher \<open>M\<close>; there are Matchers
  \<open>Ts\<close>, one for each transform, a plain function promoted and a Matcher kept, and
  \<open>F\<close> is \<^verbatim>\<open>match.first\<close> of them. Called with a state and an action, \<open>M\<close>
  evaluates the condition on the action alone; when it is falsy, \<open>M\<close> returns the
  state and evaluates nothing else, and when it is truthy, \<open>M\<close> does what \<open>F\<close> does
  on the arguments of the call.
\<close>

theorem redux_with_call:
  fixes h :: "'e heap"
  assumes "isFunction c \<or> is_Object c"
  shows "\<exists>R h1. redux c h = Inr (R, h1) \<and>
     (\<forall>g t ts.
        take (length h1) g = h1 \<and> list_all (valid_transform g) (t # ts) \<longrightarrow>
        (\<exists>M g2 Ts gT F gF.
           matcher_with R (t # ts) g = Inr (M, g2) \<and>
           take (length g) gT = g \<and>
           length Ts = length (t # ts) \<and>
           (\<forall>i<length (t # ts). promoted gT ((t # ts) ! i) (Ts ! i)) \<and>
           first Ts gT = Inr (F, gF) \<and>
           (\<forall>state action rest.
              call_matcher g2 M (state # action # rest) =
                and_then (shape h c [action])
                  (\<lambda>b. if truthy b then call_matcher gF F (state # action # rest)
                       else ret state))))"
proof -
  define ac :: "'e fn" where "ac = (\<lambda>callArgs. shape h c [nth_arg 1 callArgs])"
  define h1 where "h1 = h @ [\<lparr>condition = ac, reducer = R_identity, with_impl = Rebind\<rparr>,
                               \<lparr>condition = ac, reducer = R_identity, with_impl = Grouped\<rparr>]"
  have built: "redux c h = Inr (Suc (length h), h1)"
    unfolding h1_def ac_def using assms by (rule redux_builds)
  have inner: "\<exists>M g2 Ts gT F gF.
           matcher_with (Suc (length h)) (t # ts) g = Inr (M, g2) \<and>
           take (length g) gT = g \<and>
           length Ts = length (t # ts) \<and>
           (\<forall>i<length (t # ts). promoted gT ((t # ts) ! i) (Ts ! i)) \<and>
           first Ts gT = Inr (F, gF) \<and>
           (\<forall>state action rest.
              call_matcher g2 M (state # action # rest) =
                and_then (shape h c [action])
                  (\<lambda>b. if truthy b then call_matcher gF F (state # action # rest)
                       else ret state))"
    if a: "take (length h1) g = h1 \<and> list_all (valid_transform g) (t # ts)" for g t ts
  proof -
    from a have len: "length h1 \<le> length g"
      by (simp add: take_eq_length_le)
    then have R: "Suc (length h) < length g" by (simp add: h1_def)
    have "g ! Suc (length h) = take (length h1) g ! Suc (length h)" by (simp add: h1_def)
    also have "\<dots> = h1 ! Suc (length h)" using a by simp
    finally have gR: "g ! Suc (length h) = \<lparr>condition = ac, reducer = R_identity, with_impl = Grouped\<rparr>"
      by (simp add: h1_def nth_append)
    from a have valid: "list_all (valid_transform g) (t # ts)" by simp
    from grouped_with_call [OF R gR valid] obtain M g2 Ts gT F gF where
      g: "matcher_with (Suc (length h)) (t # ts) g = Inr (M, g2)"
         "take (length g) gT = g"
         "length Ts = length (t # ts)"
         "\<forall>i<length (t # ts). promoted gT ((t # ts) ! i) (Ts ! i)"
         "first Ts gT = Inr (F, gF)"
         and call: "\<And>args. call_matcher g2 M args =
              and_then (ac args) (\<lambda>b. if truthy b then call_matcher gF F args
                                       else ret (nth_arg 0 args))"
      by blast
    have "\<forall>state action rest.
              call_matcher g2 M (state # action # rest) =
                and_then (shape h c [action])
                  (\<lambda>b. if truthy b then call_matcher gF F (state # action # rest)
                       else ret state)"
      by (simp add: call ac_def nth_arg_def cong: if_cong)
    with g show ?thesis by blast
  qed
  from built inner show ?thesis by blast
qed

theorem redux_with_call_witness:
  "\<exists>R h1 M g2.
     redux (Obj [(''type'', Fn (Plain (\<lambda>args. ([''type?''], Inr (Bool (nth_arg 0 args = Str ''ADD''))))))]) []
       = Inr (R, h1) \<and>
     matcher_with R
       [Fn (MatcherRef 2), Fn (Plain (\<lambda>args. ([''t''], Inr (Num 1))))]
       (h1 @ [\<lparr>condition = (\<lambda>args. ([''inner''], Inr (Bool False))),
                reducer = (\<lambda>args. ([''never''], Inr (Num 5))), with_impl = Rebind\<rparr>])
       = Inr (M, g2) \<and>
     call_matcher g2 M [Num 0, Obj [(''type'', Str ''ADD'')]] = ([''type?'', ''inner'', ''t''], Inr (Num 1)) \<and>
     call_matcher g2 M [Num 0, Obj [(''type'', Str ''DEL'')]] = ([''type?''], Inr (Num 0))"
proof -
  let ?p = "\<lambda>args :: jsval list. ([''type?''], Inr (Bool (nth_arg 0 args = Str ''ADD'')) :: error + jsval)"
  let ?c = "Obj [(''type'', Fn (Plain ?p))] :: string jsany"
  let ?t = "\<lambda>args :: jsval list. ([''t''], Inr (Num 1 :: jsval) :: error + jsval)"
  let ?inner = "\<lparr>condition = (\<lambda>args :: jsval list. ([''inner''], Inr (Bool False) :: error + jsval)),
                reducer = (\<lambda>args :: jsval list. ([''never''], Inr (Num 5 :: jsval) :: error + jsval)),
                with_impl = Rebind\<rparr>"
  let ?ts = "[Fn (MatcherRef 2), Fn (Plain ?t)] :: string jsany list"
  have c: "isFunction ?c \<or> is_Object ?c" by simp
  from redux_with_call [OF c, of "[]"] obtain R h1 where
    R: "redux ?c [] = Inr (R, h1)" and
    later: "\<And>g t ts. take (length h1) g = h1 \<and> list_all (valid_transform g) (t # ts) \<Longrightarrow>
        \<exists>M g2 Ts gT F gF.
           matcher_with R (t # ts) g = Inr (M, g2) \<and>
           take (length g) gT = g \<and>
           length Ts = length (t # ts) \<and>
           (\<forall>i<length (t # ts). promoted gT ((t # ts) ! i) (Ts ! i)) \<and>
           first Ts gT = Inr (F, gF) \<and>
           (\<forall>state action rest.
              call_matcher g2 M (state # action # rest) =
                and_then (shape [] ?c [action])
                  (\<lambda>b. if truthy b then call_matcher gF F (state # action # rest)
                       else ret state))"
    by blast
  from R have len: "length h1 = 2"
    by (auto simp: redux_builds)
  let ?g = "h1 @ [?inner]"
  have "take (length h1) ?g = h1 \<and> list_all (valid_transform ?g) ?ts"
    by (simp add: valid_transform_def len)
  from later [OF this] obtain M g2 Ts gT F gF where
    M: "matcher_with R ?ts ?g = Inr (M, g2)" and
    gT: "take (length ?g) gT = ?g" and
    Ts0: "length Ts = length ?ts" "\<forall>i<length ?ts. promoted gT (?ts ! i) (Ts ! i)" and
    F: "first Ts gT = Inr (F, gF)" and
    call: "\<And>state action rest.
              call_matcher g2 M (state # action # rest) =
                and_then (shape [] ?c [action])
                  (\<lambda>b. if truthy b then call_matcher gF F (state # action # rest)
                       else ret state)"
    by blast
  from Ts0 have Ts: "length Ts = 2" "\<forall>i<2. promoted gT (?ts ! i) (Ts ! i)" by simp_all
  from Ts(1) obtain a b where ab: "Ts = [a, b]"
    by (cases Ts; cases "tl Ts") auto
  from Ts(2) [rule_format, of 0] ab have a: "a = 2" by (simp add: promoted_def)
  from Ts(2) [rule_format, of 1] ab have b: "b < length gT" "condition (gT ! b) = R_T" "reducer (gT ! b) = ?t"
    by (simp_all add: promoted_def)
  have "length ?g \<le> length gT" using gT by (rule take_eq_length_le)
  then have lgT: "2 < length gT" by (simp add: len)
  have "gT ! 2 = take (length ?g) gT ! 2" by (simp add: len)
  also have "\<dots> = ?g ! 2" by (simp only: gT)
  also have "\<dots> = ?inner" by (simp add: len nth_append)
  finally have g2: "gT ! 2 = ?inner" .
  have "first [2, b] gT =
      Inr (length gT, gT @ [\<lparr>condition = R_T, reducer = first_reducer gT [2, b], with_impl = Rebind\<rparr>])"
    using lgT b(1) by (intro first_builds) simp_all
  with F ab a have Fd: "F = length gT"
    "gF = gT @ [\<lparr>condition = R_T, reducer = first_reducer gT [2, b], with_impl = Rebind\<rparr>]"
    by simp_all
  have inner: "call_matcher gF F args = ([''inner'', ''t''], Inr (Num 1))" for args
    unfolding Fd call_first
    by (simp add: first_reducer_def g2 b R_T_def reduce_def R_ifElse_def ret_def Let_def)
  have "call_matcher g2 M [Num 0, Obj [(''type'', Str ''ADD'')]] = ([''type?'', ''inner'', ''t''], Inr (Num 1))"
    by (simp add: call shape_def call_value_def nth_arg_def inner ret_def)
  moreover have "call_matcher g2 M [Num 0, Obj [(''type'', Str ''DEL'')]] = ([''type?''], Inr (Num 0))"
    by (simp add: call shape_def call_value_def nth_arg_def ret_def)
  ultimately show ?thesis using R M by blast
qed

subsection \<open>match.plainAction\<close>






subsection \<open>combineReducers\<close>

lemma state_slice_reads:
  "truthy state \<Longrightarrow> get_prop state key = Inr (state_slice state key)"
  by (cases state) (simp_all add: state_slice_def)

lemma mapValues_all_return:
  assumes "list_all (\<lambda>kf. returned (it (snd kf) (fst kf))) kfs"
  shows "mapValues kfs it =
     (concat (map (\<lambda>kf. fst (it (snd kf) (fst kf))) kfs),
      Inr (map (\<lambda>kf. (fst kf, value_of (it (snd kf) (fst kf)))) kfs))"
  using assms
proof (induction kfs)
  case Nil
  then show ?case by (simp add: ret_def)
next
  case (Cons kf kfs)
  obtain k f where kf: "kf = (k, f)" by (cases kf)
  from Cons.prems kf obtain l v where r: "it f k = (l, Inr v)"
    by (cases "it f k") (auto simp: returned_def split: sum.splits)
  from Cons have IH: "mapValues kfs it =
     (concat (map (\<lambda>kf. fst (it (snd kf) (fst kf))) kfs),
      Inr (map (\<lambda>kf. (fst kf, value_of (it (snd kf) (fst kf)))) kfs))" by simp
  show ?case by (simp add: kf r IH ret_def value_of_def)
qed

text \<open>
  C6. \<^verbatim>\<open>combineReducers\<close> throws for a falsy mapping. For a mapping of keys to
  functions it returns a reducer; called with a state and an action, the reducer calls
  the function of each key, in order, with the state's slice for the key
  (\<^verbatim>\<open>state && state[key]\<close>), the action and the whole state, and, when each returns,
  it returns an object with exactly the keys of the mapping, each with what its function
  returned.
\<close>

theorem combineReducers_call:
  fixes fs :: "(string \<times> 'e fn) list"
  shows "(\<not> truthy mapping \<longrightarrow>
            combineReducers mapping = Inl (Error ''You must supply reducers to combineReducers()'')) \<and>
         (\<exists>g. combineReducers (Obj (map (\<lambda>kf. (fst kf, Fn (snd kf))) fs)) = Inr g \<and>
            (\<forall>state action.
               list_all (\<lambda>kf. returned (snd kf [state_slice state (fst kf), action, state])) fs \<longrightarrow>
               g [state, action] =
                 (concat (map (\<lambda>kf. fst (snd kf [state_slice state (fst kf), action, state])) fs),
                  Inr (Obj (map (\<lambda>kf. (fst kf, value_of (snd kf [state_slice state (fst kf), action, state]))) fs)))))"
proof (intro conjI impI)
  assume "\<not> truthy mapping"
  then show "combineReducers mapping = Inl (Error ''You must supply reducers to combineReducers()'')"
    by (simp add: combineReducers_def)
next
  let ?m = "map (\<lambda>kf. (fst kf, Fn (snd kf))) fs"
  let ?it = "\<lambda>state action. (\<lambda>sReducer key. call_fn sReducer [state_slice state key, action, state])"
  have it: "?it state action (Fn f) k = f [state_slice state k, action, state]" for state action f k
    by (simp add: call_fn_def)
  have "and_then (mapValues ?m (?it state action)) (\<lambda>kvs. ret (Obj kvs)) =
        (concat (map (\<lambda>kf. fst (snd kf [state_slice state (fst kf), action, state])) fs),
         Inr (Obj (map (\<lambda>kf. (fst kf, value_of (snd kf [state_slice state (fst kf), action, state]))) fs)))"
    if "list_all (\<lambda>kf. returned (snd kf [state_slice state (fst kf), action, state])) fs"
    for state action
  proof -
    from that have "list_all (\<lambda>kf. returned (?it state action (snd kf) (fst kf))) ?m"
      by (simp add: list_all_iff it)
    from mapValues_all_return [OF this] show ?thesis
      by (simp add: it comp_def ret_def)
  qed
  then show "\<exists>g. combineReducers (Obj ?m) = Inr g \<and>
            (\<forall>state action.
               list_all (\<lambda>kf. returned (snd kf [state_slice state (fst kf), action, state])) fs \<longrightarrow>
               g [state, action] =
                 (concat (map (\<lambda>kf. fst (snd kf [state_slice state (fst kf), action, state])) fs),
                  Inr (Obj (map (\<lambda>kf. (fst kf, value_of (snd kf [state_slice state (fst kf), action, state]))) fs))))"
    by (simp add: combineReducers_def nth_arg_def)
qed

theorem combineReducers_call_witness:
  "\<exists>g. combineReducers (Obj [(''A'', Fn (\<lambda>args. ([''A''], Inr (nth_arg 2 args)))),
                              (''B'', Fn (\<lambda>args. ([''B''], Inr (nth_arg 0 args))))]) = Inr g \<and>
     g [Obj [(''A'', Num 1), (''B'', Num 2), (''C'', Num 3)], Str ''act''] =
       ([''A'', ''B''],
        Inr (Obj [(''A'', Obj [(''A'', Num 1), (''B'', Num 2), (''C'', Num 3)]), (''B'', Num 2)]))"
proof -
  let ?fs = "[(''A'', \<lambda>args :: jsval list. ([''A''], Inr (nth_arg 2 args) :: error + jsval)),
              (''B'', \<lambda>args :: jsval list. ([''B''], Inr (nth_arg 0 args) :: error + jsval))]"
  let ?state = "Obj [(''A'', Num 1), (''B'', Num 2), (''C'', Num 3)] :: jsval"
  from combineReducers_call [of Undefined ?fs] obtain g where
    g: "combineReducers (Obj (map (\<lambda>kf. (fst kf, Fn (snd kf))) ?fs)) = Inr g" and
    call: "\<And>state action.
      list_all (\<lambda>kf. returned (snd kf [state_slice state (fst kf), action, state])) ?fs \<Longrightarrow>
      g [state, action] =
        (concat (map (\<lambda>kf. fst (snd kf [state_slice state (fst kf), action, state])) ?fs),
         Inr (Obj (map (\<lambda>kf. (fst kf, value_of (snd kf [state_slice state (fst kf), action, state]))) ?fs)))"
    by blast
  have "g [?state, Str ''act''] =
       ([''A'', ''B''],
        Inr (Obj [(''A'', Obj [(''A'', Num 1), (''B'', Num 2), (''C'', Num 3)]), (''B'', Num 2)]))"
    using call [of ?state "Str ''act''"]
    by (simp add: returned_def value_of_def state_slice_def nth_arg_def)
  with g show ?thesis by simp
qed

subsection \<open>findReducer\<close>








lemma tree_value_defined [simp]: "\<not> isUndefined (tree_value t)"
  by (cases t) (simp_all add: isUndefined_def)

lemma isUndefined_Undefined [simp]: "isUndefined Undefined"
  by (simp add: isUndefined_def)

lemma tree_value_truthy [simp]: "truthy (tree_value t)"
  by (cases t) simp_all




















end
